theory Spec2Isabelle
  imports Complex_Main "HOL-Library.Sublist" "HOL-Library.Log_Nat"
begin

section \<open>Python strings\<close>

text \<open>
  A Python \<open>str\<close> is a sequence of Unicode code points; \<open>len\<close> counts code points and
  \<open>in\<close> between two strings is contiguous containment. A code point is a natural number
  here, so that the accented letters of the vocabulary (U+00E9) and the euro sign (U+20AC)
  are single elements, as they are in Python.
\<close>

type_synonym ustr = "nat list"

definition u :: "string \<Rightarrow> ustr" where
  \<comment> \<open>an ASCII literal as code points\<close>
  "u s = map of_char s"

fun py_in :: "ustr \<Rightarrow> ustr \<Rightarrow> bool" where
  \<comment> \<open>\<open>s in t\<close> for two strings\<close>
  "py_in s [] = (s = [])"
| "py_in s (c # t) = (prefix s (c # t) \<or> py_in s t)"

definition isspace :: "nat \<Rightarrow> bool" where
  \<comment> \<open>the code points \<open>str.split()\<close> and \<open>str.strip()\<close> treat as whitespace\<close>
  "isspace c \<longleftrightarrow>
     (9 \<le> c \<and> c \<le> 13) \<or> (28 \<le> c \<and> c \<le> 32) \<or> c = 133 \<or> c = 160 \<or> c = 5760 \<or>
     (8192 \<le> c \<and> c \<le> 8202) \<or> c = 8232 \<or> c = 8233 \<or> c = 8239 \<or> c = 8287 \<or> c = 12288"

fun py_split_from :: "ustr \<Rightarrow> ustr \<Rightarrow> ustr list" where
  \<comment> \<open>\<open>cur\<close> is the token being read\<close>
  "py_split_from cur [] = (if cur = [] then [] else [cur])"
| "py_split_from cur (c # cs) =
     (if isspace c then (if cur = [] then py_split_from [] cs else cur # py_split_from [] cs)
      else py_split_from (cur @ [c]) cs)"

definition py_split :: "ustr \<Rightarrow> ustr list" where
  \<comment> \<open>\<open>s.split()\<close>: the maximal runs of non-whitespace\<close>
  "py_split s = py_split_from [] s"

definition lower_ascii :: "ustr \<Rightarrow> ustr" where
  \<comment> \<open>\<open>str.lower\<close> on ASCII text; the instance of the \<open>lower\<close> parameter in the examples\<close>
  "lower_ascii s = map (\<lambda>c. if 65 \<le> c \<and> c \<le> 90 then c + 32 else c) s"

definition ascii_upper :: "nat \<Rightarrow> bool" where
  "ascii_upper c \<longleftrightarrow> 65 \<le> c \<and> c \<le> 90"

section \<open>Keyword extraction\<close>

text \<open>
  \<open>str.lower\<close> is the Unicode case mapping of the Python runtime. The functions below take
  it as the parameter \<open>lower\<close>, so what is proved of them holds for every case mapping.
\<close>

definition mots_cles_juridiques :: "ustr list" where
  "mots_cles_juridiques =
     [u ''contrat'', u ''bail'', u ''commercial'', u ''travail'', u ''licenciement'',
      u ''cr'' @ [233] @ u ''ation'', u ''soci'' @ [233] @ u ''t'' @ [233],
      u ''immobilier'', u ''divorce'', u ''succession'', u ''p'' @ [233] @ u ''nal'',
      u ''d'' @ [233] @ u ''fense'', u ''contentieux'',
      u ''marque'', u ''brevet'',
      u ''propri'' @ [233] @ u ''t'' @ [233] @ u '' intellectuelle'', u ''RGPD'',
      u ''donn'' @ [233] @ u ''es'',
      u ''construction'', u ''liquidation'', u ''redressement'', u ''sauvegarde'',
      u ''association'', u ''fondation'', u ''compliance'', u ''fusion'', u ''acquisition'']"

definition extraire_mots_cles :: "(ustr \<Rightarrow> ustr) \<Rightarrow> ustr \<Rightarrow> ustr list" where
  "extraire_mots_cles lower texte =
     (let texte_lower = lower texte
      in filter (\<lambda>mot. py_in mot texte_lower) mots_cles_juridiques)"

section \<open>Catalogue and lexical ranking\<close>

text \<open>
  The catalogue is the dictionary \<open>get_prestations()\<close> returns: domain id to a domain with
  a label and a dictionary of prestations. A dictionary is enumerated in insertion order,
  so it is an association list here. \<open>score_mot\<close> is the body of the loop over the words
  of the query, \<open>calcul_score\<close> the score of one prestation, \<open>ajouter_prestation\<close> the
  body of the inner loop. \<open>list.sort(key, reverse=True)\<close> is a stable sort: \<open>sort_key\<close>
  on the negated score.
\<close>

record prestation =
  p_label :: ustr
  p_definition :: ustr
  p_tarif :: int

record domaine =
  d_label :: ustr
  d_prestations :: "(ustr \<times> prestation) list"

type_synonym catalogue = "(ustr \<times> domaine) list"

record resultat =
  r_domaine :: ustr
  r_domaine_id :: ustr
  r_prestation_id :: ustr
  r_prestation :: prestation
  r_score :: int

definition score_mot :: "ustr \<Rightarrow> ustr \<Rightarrow> ustr \<Rightarrow> ustr \<Rightarrow> int \<Rightarrow> int" where
  "score_mot label_l definition_l domaine_l mot score =
     (if length mot > 3 then
        (let score = (if py_in mot label_l then score + 4 else score);
             score = (if py_in mot definition_l then score + 2 else score);
             score = (if py_in mot domaine_l then score + 1 else score)
         in score)
      else score)"

definition calcul_score ::
  "(ustr \<Rightarrow> ustr) \<Rightarrow> ustr list \<Rightarrow> ustr \<Rightarrow> domaine \<Rightarrow> prestation \<Rightarrow> int" where
  "calcul_score lower mots_cles query_lower domaine_data prestation_data =
     (let score = 0;
          score = (if list_ex (\<lambda>mot. py_in mot (lower (p_label prestation_data))) mots_cles
                   then score + 3 else score);
          score = (if list_ex (\<lambda>mot. py_in mot (lower (p_definition prestation_data))) mots_cles
                   then score + 2 else score)
      in fold (score_mot (lower (p_label prestation_data)) (lower (p_definition prestation_data))
                 (lower (d_label domaine_data)))
           (py_split query_lower) score)"

definition ajouter_prestation ::
  "(ustr \<Rightarrow> ustr) \<Rightarrow> ustr list \<Rightarrow> ustr \<Rightarrow> ustr \<Rightarrow> domaine \<Rightarrow> ustr \<times> prestation
     \<Rightarrow> resultat list \<Rightarrow> resultat list" where
  "ajouter_prestation lower mots_cles query_lower domaine_id domaine_data kv resultats =
     (case kv of (prestation_id, prestation_data) \<Rightarrow>
        (let score = calcul_score lower mots_cles query_lower domaine_data prestation_data
         in if score > 0
            then resultats @ [\<lparr>r_domaine = d_label domaine_data, r_domaine_id = domaine_id,
                                r_prestation_id = prestation_id, r_prestation = prestation_data,
                                r_score = score\<rparr>]
            else resultats))"

definition rechercher_prestations_pertinentes ::
  "(ustr \<Rightarrow> ustr) \<Rightarrow> catalogue \<Rightarrow> ustr \<Rightarrow> ustr list \<Rightarrow> resultat list" where
  "rechercher_prestations_pertinentes lower prestations query mots_cles =
     (let query_lower = lower query;
          resultats = fold (\<lambda>(domaine_id, domaine_data) resultats.
                        fold (ajouter_prestation lower mots_cles query_lower domaine_id domaine_data)
                          (d_prestations domaine_data) resultats)
                        prestations [];
          resultats = sort_key (\<lambda>x. - r_score x) resultats
      in take 5 resultats)"

text \<open>
  \<open>score_spec\<close> is the score as the specification words it; \<open>paires\<close> enumerates the
  catalogue and \<open>entree\<close> is the entry of one pair. \<open>catalogue_exemple\<close> is a small
  catalogue for the examples.
\<close>

definition score_spec :: "(ustr \<Rightarrow> ustr) \<Rightarrow> ustr list \<Rightarrow> ustr \<Rightarrow> ustr \<Rightarrow> ustr \<Rightarrow> ustr \<Rightarrow> int" where
  "score_spec lower mots_cles query domaine_label label definition_text =
     (if list_ex (\<lambda>mot. py_in mot (lower label)) mots_cles then 3 else 0)
   + (if list_ex (\<lambda>mot. py_in mot (lower definition_text)) mots_cles then 2 else 0)
   + (\<Sum>mot \<leftarrow> filter (\<lambda>mot. length mot > 3) (py_split (lower query)).
        (if py_in mot (lower label) then 4 else 0)
      + (if py_in mot (lower definition_text) then 2 else 0)
      + (if py_in mot (lower domaine_label) then 1 else 0))"

definition paires :: "catalogue \<Rightarrow> (ustr \<times> domaine \<times> ustr \<times> prestation) list" where
  "paires prestations =
     concat (map (\<lambda>(domaine_id, domaine_data).
                    map (\<lambda>(prestation_id, prestation_data).
                           (domaine_id, domaine_data, prestation_id, prestation_data))
                      (d_prestations domaine_data))
               prestations)"

definition entree :: "(ustr \<Rightarrow> ustr) \<Rightarrow> ustr list \<Rightarrow> ustr \<Rightarrow> ustr \<times> domaine \<times> ustr \<times> prestation \<Rightarrow> resultat" where
  "entree lower mots_cles query q =
     (case q of (domaine_id, domaine_data, prestation_id, prestation_data) \<Rightarrow>
        \<lparr>r_domaine = d_label domaine_data, r_domaine_id = domaine_id,
         r_prestation_id = prestation_id, r_prestation = prestation_data,
         r_score = score_spec lower mots_cles query (d_label domaine_data)
                     (p_label prestation_data) (p_definition prestation_data)\<rparr>)"

definition catalogue_exemple :: catalogue where
  "catalogue_exemple =
     [(u ''droit_immobilier_commercial'',
        \<lparr>d_label = u ''Droit immobilier commercial'',
         d_prestations =
           [(u ''redaction_bail_commercial'',
               \<lparr>p_label = u ''Redaction de bail commercial'',
                p_definition = u ''Redaction d'' @ [39] @ u ''un bail pour un local'', p_tarif = 101\<rparr>),
            (u ''audit'',
               \<lparr>p_label = u ''Audit'', p_definition = u ''Audit des baux'', p_tarif = 500\<rparr>)]\<rparr>),
      (u ''droit_de_la_famille'',
        \<lparr>d_label = u ''Droit de la famille'',
         d_prestations =
           [(u ''procedure_divorce_amiable'',
               \<lparr>p_label = u ''Divorce amiable'',
                p_definition = u ''Procedure de divorce par consentement'', p_tarif = 1200\<rparr>)]\<rparr>)]"


section \<open>Python values and exceptions\<close>

text \<open>
  \<open>json.loads\<close> returns a dynamically typed value and the session keeps what it is given,
  so the values of the analysis are modelled as they are at run time: \<open>truthy\<close> is the
  truth test of \<open>if x:\<close>, \<open>py_getitem\<close> is \<open>x[k]\<close> with a string key, \<open>py_get\<close> is
  \<open>x.get(k, d)\<close>, \<open>py_iter\<close> is iteration. An exception is a value of \<open>py_error\<close>.
\<close>

datatype py_error = KeyError | TypeError | AttributeError | OverflowError | ApiError

datatype json =
    JNull | JBool bool | JInt int | JFloat rat | JStr ustr
  | JArr "json list" | JObj "(ustr \<times> json) list"

fun truthy :: "json \<Rightarrow> bool" where
  "truthy JNull = False"
| "truthy (JBool b) = b"
| "truthy (JInt i) = (i \<noteq> 0)"
| "truthy (JFloat r) = (r \<noteq> 0)"
| "truthy (JStr s) = (s \<noteq> [])"
| "truthy (JArr xs) = (xs \<noteq> [])"
| "truthy (JObj kvs) = (kvs \<noteq> [])"

fun py_getitem :: "json \<Rightarrow> ustr \<Rightarrow> py_error + json" where
  "py_getitem (JObj kvs) k = (case map_of kvs k of None \<Rightarrow> Inl KeyError | Some v \<Rightarrow> Inr v)"
| "py_getitem _ k = Inl TypeError"

fun py_get :: "json \<Rightarrow> ustr \<Rightarrow> json \<Rightarrow> py_error + json" where
  "py_get (JObj kvs) k d = (case map_of kvs k of None \<Rightarrow> Inr d | Some v \<Rightarrow> Inr v)"
| "py_get _ k d = Inl AttributeError"

fun py_iter :: "json \<Rightarrow> py_error + json list" where
  "py_iter (JArr xs) = Inr xs"
| "py_iter (JStr s) = Inr (map (\<lambda>c. JStr [c]) s)"
| "py_iter (JObj kvs) = Inr (map (\<lambda>kv. JStr (fst kv)) kvs)"
| "py_iter _ = Inl TypeError"

definition py_strip :: "ustr \<Rightarrow> ustr" where
  \<comment> \<open>\<open>s.strip()\<close>\<close>
  "py_strip s = rev (dropWhile isspace (rev (dropWhile isspace s)))"

definition py_slice :: "nat \<Rightarrow> nat \<Rightarrow> ustr \<Rightarrow> ustr" where
  \<comment> \<open>\<open>s[a:-b]\<close> for \<open>b > 0\<close>: empty when the string is shorter than \<open>a + b\<close>\<close>
  "py_slice a b s = drop a (take (length s - b) s)"

fun py_join :: "ustr \<Rightarrow> ustr list \<Rightarrow> ustr" where
  "py_join sep [] = []"
| "py_join sep [x] = x"
| "py_join sep (x # y # ys) = x @ sep @ py_join sep (y # ys)"

fun chiffres :: "nat \<Rightarrow> ustr" where
  "chiffres n = (if n < 10 then [48 + n] else chiffres (n div 10) @ [48 + n mod 10])"

definition str_int :: "int \<Rightarrow> ustr" where
  \<comment> \<open>\<open>str(i)\<close> of an integer, as an f-string prints it\<close>
  "str_int i = (if i < 0 then 45 # chiffres (nat (- i)) else chiffres (nat i))"

section \<open>Clarification questions\<close>

text \<open>
  \<open>list(set(xs))\<close> enumerates the distinct elements of \<open>xs\<close> in the order of the hash
  table, which Python fixes only within one process (string hashing is salted per
  process). The enumeration is the parameter \<open>ordre\<close>; \<open>enumere\<close> says what every such
  enumeration satisfies. The query is an argument the function never reads.
\<close>

definition enumere :: "(ustr list \<Rightarrow> ustr list) \<Rightarrow> bool" where
  "enumere ordre \<longleftrightarrow> (\<forall>xs. distinct (ordre xs) \<and> set (ordre xs) = set xs)"

definition texte_aucun_resultat :: ustr where
  "texte_aucun_resultat =
     u ''Je n'' @ [39] @ u ''ai pas trouv'' @ [233]
     @ u '' de prestations correspondant exactement '' @ [224]
     @ u '' votre demande. Pouvez-vous me donner plus de d'' @ [233]
     @ u ''tails sur votre situation juridique ?''"

definition lignes_affiner :: "ustr list" where
  "lignes_affiner =
     [u ''J'' @ [39] @ u ''ai identifi'' @ [233]
        @ u '' quelques prestations qui pourraient vous convenir. Pour affiner :'',
      u ''- Pouvez-vous me donner plus de d'' @ [233] @ u ''tails sur votre situation ?'',
      u ''- Y a-t-il une urgence particuli'' @ [232] @ u ''re ?'',
      u ''- Avez-vous d'' @ [233] @ [106, 224] @ u '' entam'' @ [233] @ u '' des d''
        @ [233] @ u ''marches juridiques ?'']"

definition lignes_orienter :: "ustr list \<Rightarrow> ustr list" where
  "lignes_orienter domaines =
     [u ''Pour mieux vous orienter, pouvez-vous me pr'' @ [233] @ u ''ciser :'',
      u ''- Votre situation concerne-t-elle plut'' @ [244] @ u ''t : ''
        @ py_join (u '', '') domaines @ u '' ?'',
      u ''- S'' @ [39] @ u ''agit-il d'' @ [39] @ u ''une situation urgente ?'',
      [45, 32, 202] @ u ''tes-vous un particulier ou une entreprise ?'']"

definition generer_questions_clarification ::
  "(ustr list \<Rightarrow> ustr list) \<Rightarrow> resultat list \<Rightarrow> ustr \<Rightarrow> ustr" where
  "generer_questions_clarification ordre resultats query =
     (if resultats = [] then texte_aucun_resultat
      else
        (let domaines_uniques = ordre (map r_domaine resultats);
             questions = (if length domaines_uniques > 2
                          then lignes_orienter (take 3 domaines_uniques)
                          else lignes_affiner)
         in py_join [10] questions))"

text \<open>
  Matches for the examples: four matches over three domains, in the order of the ranker.
\<close>

definition resultat_exemple :: "ustr \<Rightarrow> int \<Rightarrow> resultat" where
  "resultat_exemple domaine score =
     \<lparr>r_domaine = domaine, r_domaine_id = u ''d'', r_prestation_id = u ''p'',
      r_prestation = \<lparr>p_label = u ''Audit'', p_definition = u ''Audit des baux'', p_tarif = 500\<rparr>,
      r_score = score\<rparr>"

definition resultats_exemple :: "resultat list" where
  "resultats_exemple =
     [resultat_exemple (u ''Droit fiscal'') 5, resultat_exemple (u ''Droit social'') 4,
      resultat_exemple (u ''Droit fiscal'') 3, resultat_exemple (u ''Droit des affaires'') 2]"

section \<open>Analysis by the external model\<close>

text \<open>
  The request to the model and \<open>json.loads\<close> are outside the repository. \<open>gpt\<close> is the
  outcome of the request for a query and the last five messages (\<open>Inl\<close>: the request, or
  reading the content of the reply, raises); \<open>json_loads\<close> is the parser (\<open>None\<close>: it
  raises). The second component of the result says whether \<open>st.error\<close> was called.
\<close>

datatype role = User | Assistant

record message =
  m_role :: role
  m_content :: ustr

definition resultat_defaut :: json where
  "resultat_defaut =
     JObj [(u ''prestations_recommandees'', JArr []),
           (u ''questions_clarification'', JArr [JStr (u ''Pouvez-vous reformuler votre demande ?'')]),
           (u ''analyse_situation'', JStr (u ''Erreur d'' @ [39] @ u ''analyse'')),
           (u ''urgence_detectee'', JBool False),
           (u ''type_client'', JStr (u ''indetermine''))]"

definition nettoyer :: "ustr \<Rightarrow> ustr" where
  "nettoyer result_text =
     (let result_text = py_strip result_text
      in if prefix (u ''```json'') result_text then py_slice 7 3 result_text
         else if prefix (u ''```'') result_text then py_slice 3 3 result_text
         else result_text)"

definition analyser_avec_gpt ::
  "(ustr \<Rightarrow> json option) \<Rightarrow> (ustr \<Rightarrow> message list \<Rightarrow> py_error + ustr)
     \<Rightarrow> ustr \<Rightarrow> message list \<Rightarrow> json \<times> bool" where
  "analyser_avec_gpt json_loads gpt query historique =
     (case gpt query (drop (length historique - 5) historique) of
        Inl e \<Rightarrow> (resultat_defaut, True)
      | Inr result_text \<Rightarrow>
          (case json_loads (nettoyer result_text) of
             None \<Rightarrow> (resultat_defaut, True)
           | Some result \<Rightarrow> (result, False)))"

text \<open>
  \<open>json_ws\<close> is the whitespace of JSON. \<open>loads_spec\<close> is what the claims about fenced
  replies use of \<open>json.loads\<close>: whitespace around a document is ignored, and a text it
  accepts begins and ends with JSON whitespace or with a character of the document, which
  is no whitespace, no backquote and not the letter j. \<open>loads_exemple\<close> is the parser
  restricted to the documents of the examples.
\<close>

definition json_ws :: "nat \<Rightarrow> bool" where
  "json_ws c \<longleftrightarrow> c = 32 \<or> c = 9 \<or> c = 10 \<or> c = 13"

definition loads_spec :: "(ustr \<Rightarrow> json option) \<Rightarrow> bool" where
  "loads_spec json_loads \<longleftrightarrow>
     (\<forall>a t b. list_all json_ws a \<and> list_all json_ws b \<longrightarrow> json_loads (a @ t @ b) = json_loads t)
   \<and> (\<forall>t v. json_loads t = Some v \<longrightarrow>
          t \<noteq> [] \<and> (json_ws (hd t) \<or> \<not> isspace (hd t) \<and> hd t \<noteq> 96 \<and> hd t \<noteq> 106)
                 \<and> (json_ws (last t) \<or> \<not> isspace (last t)))"

definition json_trim :: "ustr \<Rightarrow> ustr" where
  "json_trim s = rev (dropWhile json_ws (rev (dropWhile json_ws s)))"

definition document_exemple :: ustr where
  "document_exemple =
     u ''{'' @ [34] @ u ''prestations_recommandees'' @ [34] @ u '': [], ''
     @ [34] @ u ''questions_clarification'' @ [34] @ u '': [], ''
     @ [34] @ u ''analyse_situation'' @ [34] @ u '': '' @ [34] @ u ''bail'' @ [34] @ u '', ''
     @ [34] @ u ''urgence_detectee'' @ [34] @ u '': true}''"

definition valeur_exemple :: json where
  "valeur_exemple =
     JObj [(u ''prestations_recommandees'', JArr []),
           (u ''questions_clarification'', JArr []),
           (u ''analyse_situation'', JStr (u ''bail'')),
           (u ''urgence_detectee'', JBool True)]"

definition loads_exemple :: "ustr \<Rightarrow> json option" where
  "loads_exemple s =
     (let t = json_trim s
      in if t = u ''{}'' then Some (JObj [])
         else if t = document_exemple then Some valeur_exemple
         else None)"

section \<open>Session state and the turn\<close>

text \<open>
  \<open>st.session_state\<close> holds the messages and, once a turn has set them, the attributes
  \<open>prestations_actuelles\<close> and \<open>urgence_detectee\<close> (\<open>None\<close>: the attribute is not set).
  A turn that raises leaves the state as it was mutated so far: the functions return the
  state together with the exception, if any. \<open>py_format\<close> is the text an f-string prints
  for a value.
\<close>

record session =
  messages :: "message list"
  prestations_actuelles :: "json option"
  urgence_detectee :: "json option"

definition nouvelle_conversation :: "session \<Rightarrow> session" where
  \<comment> \<open>the button of the sidebar\<close>
  "nouvelle_conversation st = st\<lparr>messages := []\<rparr>"

fun numeroter :: "(json \<Rightarrow> ustr) \<Rightarrow> nat \<Rightarrow> json list \<Rightarrow> ustr list" where
  "numeroter py_format i [] = []"
| "numeroter py_format i (question # qs) =
     (str_int (int i) @ u ''. '' @ py_format question) # numeroter py_format (Suc i) qs"

definition appliquer_analyse ::
  "(json \<Rightarrow> ustr) \<Rightarrow> json \<Rightarrow> session \<Rightarrow> session \<times> py_error option" where
  "appliquer_analyse py_format analyse st =
     (case py_getitem analyse (u ''analyse_situation'') of
        Inl e \<Rightarrow> (st, Some e)
      | Inr situation \<Rightarrow>
         (let response_parts =
                (if truthy situation
                 then [u ''**Analyse de votre situation :** '' @ py_format situation] else [])
          in case py_getitem analyse (u ''prestations_recommandees'') of
               Inl e \<Rightarrow> (st, Some e)
             | Inr recommandees \<Rightarrow>
                (case (if truthy recommandees
                       then (case py_get analyse (u ''urgence_detectee'') (JBool False) of
                               Inl e \<Rightarrow> Inl (st\<lparr>prestations_actuelles := Some recommandees\<rparr>, e)
                             | Inr urgence \<Rightarrow>
                                 Inr (st\<lparr>prestations_actuelles := Some recommandees,
                                         urgence_detectee := Some urgence\<rparr>))
                       else Inr st) of
                   Inl (st, e) \<Rightarrow> (st, Some e)
                 | Inr st \<Rightarrow>
                    (case py_getitem analyse (u ''questions_clarification'') of
                       Inl e \<Rightarrow> (st, Some e)
                     | Inr questions \<Rightarrow>
                        (case (if truthy questions
                               then (case py_iter questions of
                                       Inl e \<Rightarrow> Inl e
                                     | Inr qs \<Rightarrow>
                                         Inr (response_parts
                                              @ [u ''**Questions pour mieux vous aider :**'']
                                              @ numeroter py_format 1 qs))
                               else Inr response_parts) of
                           Inl e \<Rightarrow> (st, Some e)
                         | Inr response_parts \<Rightarrow>
                            (st\<lparr>messages := messages st
                                  @ [\<lparr>m_role = Assistant,
                                      m_content = py_join [10, 10] response_parts\<rparr>]\<rparr>,
                             None))))))"

definition traiter_message ::
  "(ustr \<Rightarrow> json option) \<Rightarrow> (ustr \<Rightarrow> message list \<Rightarrow> py_error + ustr) \<Rightarrow> (json \<Rightarrow> ustr)
     \<Rightarrow> ustr \<Rightarrow> session \<Rightarrow> session \<times> py_error option" where
  "traiter_message json_loads gpt py_format user_input st =
     (let st = st\<lparr>messages := messages st @ [\<lparr>m_role = User, m_content = user_input\<rparr>]\<rparr>;
          analyse = fst (analyser_avec_gpt json_loads gpt user_input (messages st))
      in appliquer_analyse py_format analyse st)"

definition analysis_result :: "json \<Rightarrow> bool" where
  \<comment> \<open>the value has the shape of an AnalysisResult\<close>
  "analysis_result analyse \<longleftrightarrow>
     (case analyse of
        JObj kvs \<Rightarrow>
          (case (map_of kvs (u ''prestations_recommandees''), map_of kvs (u ''questions_clarification''),
                 map_of kvs (u ''analyse_situation''), map_of kvs (u ''urgence_detectee'')) of
             (Some (JArr rs), Some (JArr qs), Some (JStr s), Some (JBool b)) \<Rightarrow> True
           | _ \<Rightarrow> False)
      | _ \<Rightarrow> False)"

section \<open>Price and cards\<close>





section \<open>Binary floating point\<close>






section \<open>The recommendations column\<close>












section \<open>Properties of the string operations\<close>

lemma py_in_iff: "py_in s t \<longleftrightarrow> (\<exists>a b. t = a @ s @ b)"
proof (induction t)
  case Nil
  then show ?case by auto
next
  case (Cons c t)
  show ?case
  proof
    assume "py_in s (c # t)"
    then consider "prefix s (c # t)" | "py_in s t" by auto
    then show "\<exists>a b. c # t = a @ s @ b"
    proof cases
      case 1
      then obtain b where "c # t = s @ b" by (auto simp: prefix_def)
      then have "c # t = [] @ s @ b" by simp
      then show ?thesis by blast
    next
      case 2
      with Cons.IH obtain a b where "t = a @ s @ b" by blast
      then have "c # t = (c # a) @ s @ b" by simp
      then show ?thesis by blast
    qed
  next
    assume "\<exists>a b. c # t = a @ s @ b"
    then obtain a b where ab: "c # t = a @ s @ b" by blast
    show "py_in s (c # t)"
    proof (cases a)
      case Nil
      with ab have "prefix s (c # t)" by (simp add: prefix_def)
      then show ?thesis by simp
    next
      case (Cons x a')
      with ab have "t = a' @ s @ b" by simp
      with Cons.IH have "py_in s t" by blast
      then show ?thesis by simp
    qed
  qed
qed

lemma py_in_set: "py_in s t \<Longrightarrow> set s \<subseteq> set t"
  by (auto simp: py_in_iff)

lemma distinct_mots_cles_juridiques: "distinct mots_cles_juridiques"
  by (simp add: mots_cles_juridiques_def u_def)

lemma lower_ascii_no_upper: "c \<in> set (lower_ascii t) \<Longrightarrow> \<not> ascii_upper c"
  by (auto simp: lower_ascii_def ascii_upper_def)

section \<open>Properties of the ranker\<close>

lemma fold_score_mot:
  "fold (score_mot l d g) ws s =
     s + (\<Sum>mot \<leftarrow> filter (\<lambda>mot. length mot > 3) ws.
            (if py_in mot l then 4 else 0) + (if py_in mot d then 2 else 0)
          + (if py_in mot g then 1 else 0))"
  by (induction ws arbitrary: s) (simp_all add: score_mot_def Let_def)

lemma calcul_score_spec:
  "calcul_score lower mots_cles (lower query) domaine_data prestation_data =
     score_spec lower mots_cles query (d_label domaine_data)
       (p_label prestation_data) (p_definition prestation_data)"
  by (simp add: calcul_score_def score_spec_def fold_score_mot Let_def)

lemma fold_ajouter_prestation:
  "fold (ajouter_prestation lower mots_cles (lower query) did dd) ps acc =
     acc @ filter (\<lambda>r. r_score r > 0)
             (map (\<lambda>(pid, pd). entree lower mots_cles query (did, dd, pid, pd)) ps)"
  by (induction ps arbitrary: acc)
     (auto simp: ajouter_prestation_def entree_def calcul_score_spec Let_def)

lemma fold_append_concat: "fold (\<lambda>x acc. acc @ f x) xs acc = acc @ concat (map f xs)"
  by (induction xs arbitrary: acc) simp_all

lemma fold_domaines:
  "fold (\<lambda>(domaine_id, domaine_data) resultats.
           fold (ajouter_prestation lower mots_cles (lower query) domaine_id domaine_data)
             (d_prestations domaine_data) resultats) cat acc =
     acc @ filter (\<lambda>r. r_score r > 0) (map (entree lower mots_cles query) (paires cat))"
proof -
  let ?g = "\<lambda>x. case x of (did, dd) \<Rightarrow>
              filter (\<lambda>r. r_score r > 0)
                (map (\<lambda>(pid, pd). entree lower mots_cles query (did, dd, pid, pd))
                   (d_prestations dd))"
  have f: "(\<lambda>(domaine_id, domaine_data) resultats.
              fold (ajouter_prestation lower mots_cles (lower query) domaine_id domaine_data)
                (d_prestations domaine_data) resultats)
         = (\<lambda>x acc. acc @ ?g x)"
    by (auto simp: fun_eq_iff fold_ajouter_prestation)
  have c: "concat (map ?g cat)
         = filter (\<lambda>r. r_score r > 0) (map (entree lower mots_cles query) (paires cat))"
  proof (induction cat)
    case Nil
    then show ?case by (simp add: paires_def)
  next
    case (Cons a cat)
    obtain did dd where a: "a = (did, dd)" by (cases a)
    have p: "paires (a # cat)
           = map (\<lambda>(pid, pd). (did, dd, pid, pd)) (d_prestations dd) @ paires cat"
      by (simp add: paires_def a)
    have m: "map (entree lower mots_cles query)
               (map (\<lambda>(pid, pd). (did, dd, pid, pd)) ps)
           = map (\<lambda>(pid, pd). entree lower mots_cles query (did, dd, pid, pd)) ps" for ps
      by (induction ps) auto
    show ?case unfolding p by (simp only: list.map concat.simps Cons.IH map_append filter_append m a prod.case)
  qed
  show ?thesis unfolding f fold_append_concat c ..
qed

lemma rechercher_characterisation:
  "rechercher_prestations_pertinentes lower cat query mots_cles =
     take 5 (sort_key (\<lambda>x. - r_score x)
               (filter (\<lambda>r. r_score r > 0) (map (entree lower mots_cles query) (paires cat))))"
  by (simp add: rechercher_prestations_pertinentes_def Let_def fold_domaines)

lemma filter_take_prefix: "prefix (filter P (take n xs)) (filter P xs)"
proof -
  have "filter P xs = filter P (take n xs) @ filter P (drop n xs)"
    by (metis append_take_drop_id filter_append)
  then show ?thesis by (simp add: prefix_def)
qed

lemma sorted_desc_take:
  "sorted_wrt (\<lambda>a b. r_score b \<le> r_score a) (take n (sort_key (\<lambda>x. - r_score x) xs))"
proof -
  have "sorted (map (\<lambda>x. - r_score x) (sort_key (\<lambda>x. - r_score x) xs))"
    by (rule sorted_sort_key)
  then have "sorted_wrt (\<lambda>a b. r_score b \<le> r_score a) (sort_key (\<lambda>x. - r_score x) xs)"
    by (simp add: sorted_map)
  then show ?thesis by (rule sorted_wrt_take)
qed

section \<open>Properties of the turn\<close>

lemma analysis_resultE:
  assumes "analysis_result analyse"
  obtains kvs rs qs s b where "analyse = JObj kvs"
    and "map_of kvs (u ''prestations_recommandees'') = Some (JArr rs)"
    and "map_of kvs (u ''questions_clarification'') = Some (JArr qs)"
    and "map_of kvs (u ''analyse_situation'') = Some (JStr s)"
    and "map_of kvs (u ''urgence_detectee'') = Some (JBool b)"
  using assms unfolding analysis_result_def
  by (auto split: json.splits option.splits)

lemma appliquer_analyse_shape:
  assumes "analyse = JObj kvs"
    and "map_of kvs (u ''prestations_recommandees'') = Some (JArr rs)"
    and "map_of kvs (u ''questions_clarification'') = Some (JArr qs)"
    and "map_of kvs (u ''analyse_situation'') = Some (JStr s)"
    and "map_of kvs (u ''urgence_detectee'') = Some (JBool b)"
  shows "snd (appliquer_analyse py_format analyse st) = None"
    and "prestations_actuelles (fst (appliquer_analyse py_format analyse st))
         = (if rs = [] then prestations_actuelles st else Some (JArr rs))"
    and "urgence_detectee (fst (appliquer_analyse py_format analyse st))
         = (if rs = [] then urgence_detectee st else Some (JBool b))"
  using assms by (simp_all add: appliquer_analyse_def)

section \<open>Properties of the fences and of the parser\<close>

lemma json_ws_isspace: "json_ws c \<Longrightarrow> isspace c"
  by (auto simp: json_ws_def isspace_def)

lemma dropWhile_all: "list_all P xs \<Longrightarrow> dropWhile P (xs @ ys) = dropWhile P ys"
  by (induction xs) simp_all

lemma py_strip_padded:
  assumes "list_all isspace pre" and "list_all isspace post"
    and "x \<noteq> []" and "\<not> isspace (hd x)" and "\<not> isspace (last x)"
  shows "py_strip (pre @ x @ post) = x"
proof -
  from assms(3,4) have h: "dropWhile isspace (x @ post) = x @ post"
    by (cases x) simp_all
  from assms(3,5) have l: "dropWhile isspace (rev x) = rev x"
    by (cases x rule: rev_cases) simp_all
  from assms(2) have rp: "list_all isspace (rev post)" by (simp add: list_all_iff)
  have "py_strip (pre @ x @ post) = rev (dropWhile isspace (rev (x @ post)))"
    by (simp only: py_strip_def dropWhile_all [OF assms(1)] h)
  also have "\<dots> = rev (dropWhile isspace (rev post @ rev x))" by simp
  also have "\<dots> = rev (rev x)" by (simp only: dropWhile_all [OF rp] l)
  finally show ?thesis by simp
qed

lemma loads_spec_ws:
  assumes "loads_spec json_loads" and "list_all json_ws a" and "list_all json_ws b"
  shows "json_loads (a @ t @ b) = json_loads t"
  using assms unfolding loads_spec_def by blast

lemma loads_spec_ends:
  assumes "loads_spec json_loads" and "json_loads t = Some v"
  shows "t \<noteq> []" and "hd t \<noteq> 96" and "hd t \<noteq> 106"
    and "isspace (hd t) \<longrightarrow> json_ws (hd t)" and "isspace (last t) \<longrightarrow> json_ws (last t)"
proof -
  from assms have *: "t \<noteq> [] \<and> (json_ws (hd t) \<or> \<not> isspace (hd t) \<and> hd t \<noteq> 96 \<and> hd t \<noteq> 106)
                 \<and> (json_ws (last t) \<or> \<not> isspace (last t))"
    unfolding loads_spec_def by blast
  then show "t \<noteq> []" by blast
  from * show "hd t \<noteq> 96" by (auto simp: json_ws_def)
  from * show "hd t \<noteq> 106" by (auto simp: json_ws_def)
  from * show "isspace (hd t) \<longrightarrow> json_ws (hd t)" by blast
  from * show "isspace (last t) \<longrightarrow> json_ws (last t)" by blast
qed

lemma loads_lstrip:
  assumes "loads_spec json_loads"
  shows "json_loads t = Some v \<Longrightarrow> json_loads (dropWhile isspace t) = Some v"
proof (induction t)
  case Nil
  with loads_spec_ends(1) [OF assms] show ?case by blast
next
  case (Cons c t)
  show ?case
  proof (cases "isspace c")
    case True
    with loads_spec_ends(4) [OF assms Cons.prems] have "json_ws c" by simp
    then have "list_all json_ws [c]" by simp
    from loads_spec_ws [OF assms this, of "[]" t] have "json_loads (c # t) = json_loads t"
      by simp
    with Cons.prems have "json_loads t = Some v" by simp
    then have "json_loads (dropWhile isspace t) = Some v" by (rule Cons.IH)
    with True show ?thesis by simp
  next
    case False
    with Cons.prems show ?thesis by simp
  qed
qed

lemma loads_rstrip:
  assumes "loads_spec json_loads"
  shows "json_loads t = Some v \<Longrightarrow> json_loads (rev (dropWhile isspace (rev t))) = Some v"
proof (induction t rule: rev_induct)
  case Nil
  with loads_spec_ends(1) [OF assms] show ?case by blast
next
  case (snoc c t)
  show ?case
  proof (cases "isspace c")
    case True
    with loads_spec_ends(5) [OF assms snoc.prems] have "json_ws c" by simp
    then have "list_all json_ws [c]" by simp
    from loads_spec_ws [OF assms _ this, of "[]" t] have "json_loads (t @ [c]) = json_loads t"
      by simp
    with snoc.prems have "json_loads t = Some v" by simp
    then have "json_loads (rev (dropWhile isspace (rev t))) = Some v" by (rule snoc.IH)
    with True show ?thesis by simp
  next
    case False
    with snoc.prems show ?thesis by simp
  qed
qed

lemma loads_nettoyer_plain:
  assumes "loads_spec json_loads" and "json_loads t = Some v"
  shows "json_loads (nettoyer t) = Some v"
proof -
  from loads_lstrip [OF assms] have "json_loads (dropWhile isspace t) = Some v" .
  from loads_rstrip [OF assms(1) this] have s: "json_loads (py_strip t) = Some v"
    by (simp add: py_strip_def)
  from loads_spec_ends(1,2) [OF assms(1) s] have "py_strip t \<noteq> []" "hd (py_strip t) \<noteq> 96" .
  then have "\<not> prefix (u ''```json'') (py_strip t)" "\<not> prefix (u ''```'') (py_strip t)"
    by (cases "py_strip t"; simp add: u_def)+
  then have "nettoyer t = py_strip t" by (simp add: nettoyer_def Let_def)
  with s show ?thesis by simp
qed

lemma nettoyer_fence_json:
  assumes "list_all isspace pre" and "list_all isspace post"
  shows "nettoyer (pre @ u ''```json'' @ body @ u ''```'' @ post) = body"
proof -
  let ?x = "u ''```json'' @ body @ u ''```''"
  have "py_strip (pre @ ?x @ post) = ?x"
    by (rule py_strip_padded [OF assms]) (simp_all add: u_def isspace_def)
  then have s: "py_strip (pre @ u ''```json'' @ body @ u ''```'' @ post) = ?x" by simp
  have p: "prefix (u ''```json'') ?x" by simp
  have "py_slice 7 3 ?x = body" by (simp add: py_slice_def u_def)
  with p show ?thesis unfolding nettoyer_def Let_def s by simp
qed

lemma nettoyer_fence_plain:
  assumes "list_all isspace pre" and "list_all isspace post"
    and "body \<noteq> []" and "hd body \<noteq> 106"
  shows "nettoyer (pre @ u ''```'' @ body @ u ''```'' @ post) = body"
proof -
  let ?x = "u ''```'' @ body @ u ''```''"
  have "py_strip (pre @ ?x @ post) = ?x"
    by (rule py_strip_padded [OF assms(1,2)]) (simp_all add: u_def isspace_def)
  then have s: "py_strip (pre @ u ''```'' @ body @ u ''```'' @ post) = ?x" by simp
  from assms(3,4) have np: "\<not> prefix (u ''```json'') ?x"
    by (cases body) (simp_all add: u_def)
  have p: "prefix (u ''```'') ?x" by simp
  have "py_slice 3 3 ?x = body" by (simp add: py_slice_def u_def)
  with p np show ?thesis unfolding nettoyer_def Let_def s by simp
qed

lemma json_trim_ws:
  assumes "list_all json_ws a" and "list_all json_ws b"
  shows "json_trim (a @ t @ b) = json_trim t"
proof (cases "list_all json_ws t")
  case True
  with assms(2) have "list_all json_ws (t @ b)" by simp
  then have e1: "dropWhile json_ws (t @ b) = []" by (simp add: list_all_iff)
  from True have e2: "dropWhile json_ws t = []" by (simp add: list_all_iff)
  show ?thesis by (simp only: json_trim_def dropWhile_all [OF assms(1)] e1 e2)
next
  case False
  then obtain x where "x \<in> set t" "\<not> json_ws x" by (auto simp: list_all_iff)
  then have e1: "dropWhile json_ws (t @ b) = dropWhile json_ws t @ b"
    by (rule dropWhile_append1)
  from assms(2) have rb: "list_all json_ws (rev b)" by (simp add: list_all_iff)
  show ?thesis
    by (simp only: json_trim_def dropWhile_all [OF assms(1)] e1 rev_append dropWhile_all [OF rb])
qed

lemma json_trim_decomp:
  "\<exists>w1 w2. t = w1 @ json_trim t @ w2 \<and> list_all json_ws w1 \<and> list_all json_ws w2"
proof -
  let ?d = "dropWhile json_ws t"
  have a: "t = takeWhile json_ws t @ ?d" by simp
  have b0: "rev (takeWhile json_ws (rev ?d) @ dropWhile json_ws (rev ?d))
              = rev (dropWhile json_ws (rev ?d)) @ rev (takeWhile json_ws (rev ?d))"
    by (rule rev_append)
  have b1: "takeWhile json_ws (rev ?d) @ dropWhile json_ws (rev ?d) = rev ?d"
    by (rule takeWhile_dropWhile_id)
  from b0 have "rev (rev ?d)
              = rev (dropWhile json_ws (rev ?d)) @ rev (takeWhile json_ws (rev ?d))"
    unfolding b1 .
  then have b: "?d = json_trim t @ rev (takeWhile json_ws (rev ?d))"
    by (simp only: rev_rev_ident json_trim_def)
  have w: "list_all json_ws (takeWhile json_ws xs)" for xs
    by (induction xs) simp_all
  then have w2: "list_all json_ws (rev (takeWhile json_ws (rev ?d)))"
    by (simp add: list_all_iff)
  from a b have "t = takeWhile json_ws t @ json_trim t @ rev (takeWhile json_ws (rev ?d))"
    by metis
  with w w2 show ?thesis by blast
qed

lemma json_trim_ends:
  assumes "json_trim t = c # s" and "last (c # s) = e"
  shows "t \<noteq> []" and "json_ws (hd t) \<or> hd t = c" and "json_ws (last t) \<or> last t = e"
proof -
  from json_trim_decomp [of t] assms(1) obtain w1 w2
    where t: "t = w1 @ (c # s) @ w2" and w: "list_all json_ws w1" "list_all json_ws w2"
    by metis
  from t show "t \<noteq> []" by simp
  from t w(1) show "json_ws (hd t) \<or> hd t = c" by (cases w1) simp_all
  from t have "last t = last ((c # s) @ w2)" by simp
  with w(2) assms(2) show "json_ws (last t) \<or> last t = e"
    by (cases w2 rule: rev_cases) simp_all
qed

lemma loads_spec_loads_exemple: "loads_spec loads_exemple"
  unfolding loads_spec_def
proof (intro conjI allI impI)
  fix a t b
  assume "list_all json_ws a \<and> list_all json_ws b"
  then have "json_trim (a @ t @ b) = json_trim t" by (simp add: json_trim_ws)
  then show "loads_exemple (a @ t @ b) = loads_exemple t" by (simp add: loads_exemple_def)
next
  fix t v
  assume "loads_exemple t = Some v"
  then consider "json_trim t = u ''{}''" | "json_trim t = document_exemple"
    by (auto simp: loads_exemple_def Let_def split: if_splits)
  then have "\<exists>s. json_trim t = 123 # s \<and> last (123 # s) = 125"
  proof cases
    case 1
    then show ?thesis by (simp add: u_def)
  next
    case 2
    then show ?thesis by (simp add: document_exemple_def u_def)
  qed
  then obtain s where s: "json_trim t = 123 # s" "last (123 # s) = 125" by blast
  from json_trim_ends [OF s]
  have "t \<noteq> []" "json_ws (hd t) \<or> hd t = 123" "json_ws (last t) \<or> last t = 125" .
  then show "t \<noteq> []"
    and "json_ws (hd t) \<or> \<not> isspace (hd t) \<and> hd t \<noteq> 96 \<and> hd t \<noteq> 106"
    and "json_ws (last t) \<or> \<not> isspace (last t)"
    by (auto simp: isspace_def)
qed

section \<open>Properties of the clarification questions\<close>

lemma enumere_length:
  assumes "enumere ordre"
  shows "length (ordre xs) = card (set xs)"
proof -
  from assms have "distinct (ordre xs)" and "set (ordre xs) = set xs"
    by (simp_all add: enumere_def)
  then show ?thesis by (metis distinct_card)
qed

lemma enumere_remdups: "enumere remdups"
  by (simp add: enumere_def)

lemma enumere_rev_remdups: "enumere (\<lambda>xs. rev (remdups xs))"
  by (simp add: enumere_def)

lemma take_3_of_long:
  assumes "2 < length xs"
  obtains a b c where "take 3 xs = [a, b, c]"
proof -
  from assms obtain a b c ys where "xs = a # b # c # ys"
    by (cases xs; cases "tl xs"; cases "tl (tl xs)") auto
  then have "take 3 xs = [a, b, c]" by (simp add: numeral_3_eq_3)
  then show ?thesis by (rule that)
qed

section \<open>Properties of the display\<close>













section \<open>The keyword extractor\<close>

text \<open>
  C10. The extractor returns exactly the vocabulary terms that occur, as written, as a
  contiguous part of the lower-cased text: a term is returned if and only if it is in the
  vocabulary and occurs there. The result is a sequence in the order of the vocabulary's
  declaration, without duplicates. Since the test is made against the lower-cased text,
  when the case mapping never produces an ASCII capital, a term that contains one, as
  \<open>RGPD\<close> does, is returned for no text.
\<close>

theorem extraire_mots_cles_order_and_case:
  assumes "\<forall>t. \<forall>c\<in>set (lower t). \<not> ascii_upper c"
  shows "set (extraire_mots_cles lower texte)
           = {mot \<in> set mots_cles_juridiques. \<exists>a b. lower texte = a @ mot @ b}
       \<and> extraire_mots_cles lower texte
           = filter (\<lambda>mot. \<exists>a b. lower texte = a @ mot @ b) mots_cles_juridiques
       \<and> subseq (extraire_mots_cles lower texte) mots_cles_juridiques
       \<and> distinct (extraire_mots_cles lower texte)
       \<and> (\<forall>mot. (\<exists>c\<in>set mot. ascii_upper c) \<longrightarrow> mot \<notin> set (extraire_mots_cles lower texte))
       \<and> u ''RGPD'' \<in> set mots_cles_juridiques
       \<and> u ''RGPD'' \<notin> set (extraire_mots_cles lower texte)"
proof -
  have fil: "extraire_mots_cles lower texte
           = filter (\<lambda>mot. \<exists>a b. lower texte = a @ mot @ b) mots_cles_juridiques"
    by (simp add: extraire_mots_cles_def py_in_iff)
  then have ens: "set (extraire_mots_cles lower texte)
           = {mot \<in> set mots_cles_juridiques. \<exists>a b. lower texte = a @ mot @ b}"
    by simp
  have sub: "subseq (extraire_mots_cles lower texte) mots_cles_juridiques"
    by (simp add: extraire_mots_cles_def)
  have dist: "distinct (extraire_mots_cles lower texte)"
    using distinct_mots_cles_juridiques by (simp add: extraire_mots_cles_def)
  have up: "mot \<notin> set (extraire_mots_cles lower texte)" if "\<exists>c\<in>set mot. ascii_upper c" for mot
  proof
    assume "mot \<in> set (extraire_mots_cles lower texte)"
    then have "py_in mot (lower texte)" by (simp add: extraire_mots_cles_def)
    then have "set mot \<subseteq> set (lower texte)" by (rule py_in_set)
    with that assms show False by blast
  qed
  have "ascii_upper 82" by (simp add: ascii_upper_def)
  then have "\<exists>c\<in>set (u ''RGPD''). ascii_upper c" by (simp add: u_def)
  then have rgpd: "u ''RGPD'' \<notin> set (extraire_mots_cles lower texte)" by (rule up)
  have voc: "u ''RGPD'' \<in> set mots_cles_juridiques"
    by (simp add: mots_cles_juridiques_def)
  from ens fil sub dist up rgpd voc show ?thesis by blast
qed

theorem extraire_mots_cles_order_and_case_witness:
  "(\<forall>t. list_all (\<lambda>c. \<not> ascii_upper c) (lower_ascii t))
   \<and> extraire_mots_cles lower_ascii (u ''Bail Commercial RGPD'') = [u ''bail'', u ''commercial'']
   \<and> extraire_mots_cles lower_ascii (u ''un DIVORCE, puis un bail'') = [u ''bail'', u ''divorce'']
   \<and> extraire_mots_cles lower_ascii (u ''bonjour'') = []
   \<and> set (extraire_mots_cles lower_ascii (u ''Bail Commercial RGPD''))
        = {mot \<in> set mots_cles_juridiques.
             \<exists>a b. lower_ascii (u ''Bail Commercial RGPD'') = a @ mot @ b}
   \<and> subseq (extraire_mots_cles lower_ascii (u ''Bail Commercial RGPD'')) mots_cles_juridiques
   \<and> u ''RGPD'' \<notin> set (extraire_mots_cles lower_ascii (u ''Bail Commercial RGPD''))"
proof -
  have h: "\<forall>t. \<forall>c\<in>set (lower_ascii t). \<not> ascii_upper c"
    using lower_ascii_no_upper by blast
  then have h': "\<forall>t. list_all (\<lambda>c. \<not> ascii_upper c) (lower_ascii t)"
    by (simp add: list_all_iff)
  have e: "extraire_mots_cles lower_ascii (u ''Bail Commercial RGPD'') = [u ''bail'', u ''commercial'']"
    by (simp add: extraire_mots_cles_def mots_cles_juridiques_def lower_ascii_def u_def)
  have e2: "extraire_mots_cles lower_ascii (u ''un DIVORCE, puis un bail'') = [u ''bail'', u ''divorce'']"
    by (simp add: extraire_mots_cles_def mots_cles_juridiques_def lower_ascii_def u_def)
  have e3: "extraire_mots_cles lower_ascii (u ''bonjour'') = []"
    by (simp add: extraire_mots_cles_def mots_cles_juridiques_def lower_ascii_def u_def)
  from h' e e2 e3 extraire_mots_cles_order_and_case [OF h, of "u ''Bail Commercial RGPD''"]
  show ?thesis by blast
qed

section \<open>The lexical ranker\<close>

text \<open>
  C2. The score the ranker computes for a (domain, prestation) pair is the additive sum of
  the specification: 3 if some keyword occurs in the lower-cased label, 2 if some keyword
  occurs in the lower-cased definition, and for every whitespace-delimited word of the
  lower-cased query longer than 3 characters, counted once per occurrence, 4 if it occurs
  in the label, 2 if in the definition, 1 if in the domain label. Every entry the ranker
  returns carries that score for a pair of the catalogue.
\<close>

theorem score_is_additive_sum:
  "calcul_score lower mots_cles (lower query) domaine_data prestation_data =
     score_spec lower mots_cles query (d_label domaine_data)
       (p_label prestation_data) (p_definition prestation_data)
   \<and> (\<forall>r \<in> set (rechercher_prestations_pertinentes lower cat query mots_cles).
        r_score r = score_spec lower mots_cles query (r_domaine r)
                      (p_label (r_prestation r)) (p_definition (r_prestation r))
      \<and> (\<exists>dd. (r_domaine_id r, dd) \<in> set cat \<and> r_domaine r = d_label dd
             \<and> (r_prestation_id r, r_prestation r) \<in> set (d_prestations dd)))"
proof -
  have "r_score r = score_spec lower mots_cles query (r_domaine r)
                      (p_label (r_prestation r)) (p_definition (r_prestation r))
      \<and> (\<exists>dd. (r_domaine_id r, dd) \<in> set cat \<and> r_domaine r = d_label dd
             \<and> (r_prestation_id r, r_prestation r) \<in> set (d_prestations dd))"
    if "r \<in> set (rechercher_prestations_pertinentes lower cat query mots_cles)" for r
  proof -
    from that have "r \<in> set (map (entree lower mots_cles query) (paires cat))"
      unfolding rechercher_characterisation by (auto dest: in_set_takeD)
    then obtain q where q: "q \<in> set (paires cat)" and r: "r = entree lower mots_cles query q"
      by auto
    obtain did dd pid pd where qq: "q = (did, dd, pid, pd)" by (cases q)
    from q qq have "(did, dd) \<in> set cat \<and> (pid, pd) \<in> set (d_prestations dd)"
      by (auto simp: paires_def)
    with r qq show ?thesis by (auto simp: entree_def)
  qed
  with calcul_score_spec show ?thesis by blast
qed

theorem score_is_additive_sum_witness:
  "map r_score (rechercher_prestations_pertinentes lower_ascii catalogue_exemple
      (u ''Un bail commercial et un divorce'') [u ''bail'', u ''commercial'', u ''divorce''])
     = [16, 11, 1]
   \<and> list_all (\<lambda>r. r_score r = score_spec lower_ascii [u ''bail'', u ''commercial'', u ''divorce'']
                      (u ''Un bail commercial et un divorce'') (r_domaine r)
                      (p_label (r_prestation r)) (p_definition (r_prestation r)))
        (rechercher_prestations_pertinentes lower_ascii catalogue_exemple
           (u ''Un bail commercial et un divorce'') [u ''bail'', u ''commercial'', u ''divorce''])"
proof -
  have e: "map r_score (rechercher_prestations_pertinentes lower_ascii catalogue_exemple
      (u ''Un bail commercial et un divorce'') [u ''bail'', u ''commercial'', u ''divorce''])
     = [16, 11, 1]"
    by (simp add: rechercher_prestations_pertinentes_def catalogue_exemple_def
        ajouter_prestation_def calcul_score_def score_mot_def py_split_def lower_ascii_def
        u_def isspace_def)
  have t: "list_all (\<lambda>r. r_score r = score_spec lower_ascii [u ''bail'', u ''commercial'', u ''divorce'']
                      (u ''Un bail commercial et un divorce'') (r_domaine r)
                      (p_label (r_prestation r)) (p_definition (r_prestation r)))
        (rechercher_prestations_pertinentes lower_ascii catalogue_exemple
           (u ''Un bail commercial et un divorce'') [u ''bail'', u ''commercial'', u ''divorce''])"
    unfolding list_all_iff
    using score_is_additive_sum [of lower_ascii "[u ''bail'', u ''commercial'', u ''divorce'']"
      "u ''Un bail commercial et un divorce''" _ _ catalogue_exemple]
    by blast
  from e t show ?thesis by (rule conjI)
qed

text \<open>
  C3. The ranker returns at most 5 entries, each with a score strictly above 0, in weakly
  decreasing order of score; the returned entries of one score are the first entries of
  that score in the catalogue's enumeration, in the order of the enumeration.
\<close>

theorem rechercher_top5_sorted_stable:
  "length (rechercher_prestations_pertinentes lower cat query mots_cles) \<le> 5
   \<and> (\<forall>r \<in> set (rechercher_prestations_pertinentes lower cat query mots_cles). r_score r > 0)
   \<and> sorted_wrt (\<lambda>a b. r_score b \<le> r_score a)
        (rechercher_prestations_pertinentes lower cat query mots_cles)
   \<and> (\<forall>k. prefix (filter (\<lambda>r. r_score r = k)
                     (rechercher_prestations_pertinentes lower cat query mots_cles))
                  (filter (\<lambda>r. r_score r = k)
                     (map (entree lower mots_cles query) (paires cat))))"
proof -
  let ?all = "map (entree lower mots_cles query) (paires cat)"
  let ?pos = "filter (\<lambda>r. r_score r > 0) ?all"
  let ?out = "rechercher_prestations_pertinentes lower cat query mots_cles"
  have out: "?out = take 5 (sort_key (\<lambda>x. - r_score x) ?pos)"
    by (rule rechercher_characterisation)
  have len: "length ?out \<le> 5" by (simp add: out)
  have pos: "\<forall>r \<in> set ?out. r_score r > 0"
  proof
    fix r assume "r \<in> set ?out"
    then have "r \<in> set (sort_key (\<lambda>x. - r_score x) ?pos)"
      unfolding out by (rule in_set_takeD)
    then show "r_score r > 0" by simp
  qed
  have srt: "sorted_wrt (\<lambda>a b. r_score b \<le> r_score a) ?out"
    unfolding out by (rule sorted_desc_take)
  have stab: "prefix (filter (\<lambda>r. r_score r = k) ?out) (filter (\<lambda>r. r_score r = k) ?all)" for k
  proof -
    have e1: "filter (\<lambda>r. r_score r = k) (sort_key (\<lambda>x. - r_score x) ?pos)
            = filter (\<lambda>r. r_score r = k) ?pos"
      using sort_key_stable [of "\<lambda>x. - r_score x" "- k" ?pos] by simp
    have e2: "prefix (filter (\<lambda>r. r_score r = k) ?pos) (filter (\<lambda>r. r_score r = k) ?all)"
    proof (cases "k > 0")
      case True
      then have "filter (\<lambda>r. r_score r = k) ?pos = filter (\<lambda>r. r_score r = k) ?all"
        by (auto intro: filter_cong)
      then show ?thesis by (simp only: prefix_order.refl)
    next
      case False
      then have "filter (\<lambda>r. r_score r = k) ?pos = []"
        by (auto simp: filter_empty_conv)
      then show ?thesis by (simp only: Nil_prefix)
    qed
    have "prefix (filter (\<lambda>r. r_score r = k) ?out)
                 (filter (\<lambda>r. r_score r = k) (sort_key (\<lambda>x. - r_score x) ?pos))"
      unfolding out by (rule filter_take_prefix)
    then have "prefix (filter (\<lambda>r. r_score r = k) ?out) (filter (\<lambda>r. r_score r = k) ?pos)"
      by (simp only: e1)
    then show ?thesis using e2 by (rule prefix_order.trans)
  qed
  from len pos srt stab show ?thesis by blast
qed

theorem rechercher_top5_sorted_stable_witness:
  "map r_prestation_id (rechercher_prestations_pertinentes lower_ascii catalogue_exemple
      (u ''audit divorce'') [])
     = [u ''audit'', u ''procedure_divorce_amiable'']
   \<and> map r_score (rechercher_prestations_pertinentes lower_ascii catalogue_exemple
      (u ''audit divorce'') []) = [6, 6]
   \<and> length (rechercher_prestations_pertinentes lower_ascii catalogue_exemple
      (u ''audit divorce'') []) \<le> 5
   \<and> list_all (\<lambda>r. r_score r > 0) (rechercher_prestations_pertinentes lower_ascii
      catalogue_exemple (u ''audit divorce'') [])"
proof -
  have e: "map r_prestation_id (rechercher_prestations_pertinentes lower_ascii catalogue_exemple
      (u ''audit divorce'') [])
     = [u ''audit'', u ''procedure_divorce_amiable'']"
    by (simp add: rechercher_prestations_pertinentes_def catalogue_exemple_def
        ajouter_prestation_def calcul_score_def score_mot_def py_split_def lower_ascii_def
        u_def isspace_def)
  have s: "map r_score (rechercher_prestations_pertinentes lower_ascii catalogue_exemple
      (u ''audit divorce'') []) = [6, 6]"
    by (simp add: rechercher_prestations_pertinentes_def catalogue_exemple_def
        ajouter_prestation_def calcul_score_def score_mot_def py_split_def lower_ascii_def
        u_def isspace_def)
  have t: "length (rechercher_prestations_pertinentes lower_ascii catalogue_exemple
      (u ''audit divorce'') []) \<le> 5
   \<and> list_all (\<lambda>r. r_score r > 0) (rechercher_prestations_pertinentes lower_ascii
      catalogue_exemple (u ''audit divorce'') [])"
    unfolding list_all_iff
    using rechercher_top5_sorted_stable [of lower_ascii catalogue_exemple
      "u ''audit divorce''" "[]"]
    by blast
  from e s t show ?thesis by blast
qed

section \<open>The session\<close>

text \<open>
  C7 (as amended). The reset of the sidebar empties the message history and nothing else:
  the current recommendations and the urgency flag are what they were before it.
\<close>

theorem nouvelle_conversation_clears_messages_only:
  "messages (nouvelle_conversation st) = []
   \<and> prestations_actuelles (nouvelle_conversation st) = prestations_actuelles st
   \<and> urgence_detectee (nouvelle_conversation st) = urgence_detectee st"
  by (simp add: nouvelle_conversation_def)

theorem nouvelle_conversation_counterexample:
  "prestations_actuelles (nouvelle_conversation
      \<lparr>messages = [\<lparr>m_role = User, m_content = u ''bail''\<rparr>],
       prestations_actuelles = Some (JArr [JObj [(u ''domaine_id'', JStr (u ''d'')),
                                                 (u ''prestation_id'', JStr (u ''p''))]]),
       urgence_detectee = Some (JBool True)\<rparr>) \<noteq> None
   \<and> urgence_detectee (nouvelle_conversation
      \<lparr>messages = [\<lparr>m_role = User, m_content = u ''bail''\<rparr>],
       prestations_actuelles = Some (JArr [JObj [(u ''domaine_id'', JStr (u ''d'')),
                                                 (u ''prestation_id'', JStr (u ''p''))]]),
       urgence_detectee = Some (JBool True)\<rparr>) = Some (JBool True)"
  by (simp add: nouvelle_conversation_def)

text \<open>
  C1. For a turn whose analysis has the shape of an AnalysisResult, the turn raises
  nothing; when the recommendations are empty, the current recommendations and the
  urgency flag of the session are those before the turn; when they are not, the current
  recommendations are the new sequence and the urgency flag is the value the analysis
  gives for the urgency.
\<close>

theorem traiter_message_recommendations:
  assumes "analysis_result analyse"
    and "analyse = fst (analyser_avec_gpt json_loads gpt user_input
                          (messages st @ [\<lparr>m_role = User, m_content = user_input\<rparr>]))"
  shows "snd (traiter_message json_loads gpt py_format user_input st) = None
   \<and> (py_getitem analyse (u ''prestations_recommandees'') = Inr (JArr []) \<longrightarrow>
        prestations_actuelles (fst (traiter_message json_loads gpt py_format user_input st))
          = prestations_actuelles st
      \<and> urgence_detectee (fst (traiter_message json_loads gpt py_format user_input st))
          = urgence_detectee st)
   \<and> (\<forall>r rs v. py_getitem analyse (u ''prestations_recommandees'') = Inr (JArr (r # rs))
               \<and> py_getitem analyse (u ''urgence_detectee'') = Inr v \<longrightarrow>
        prestations_actuelles (fst (traiter_message json_loads gpt py_format user_input st))
          = Some (JArr (r # rs))
      \<and> urgence_detectee (fst (traiter_message json_loads gpt py_format user_input st))
          = Some v)"
proof -
  let ?st = "st\<lparr>messages := messages st @ [\<lparr>m_role = User, m_content = user_input\<rparr>]\<rparr>"
  have t: "traiter_message json_loads gpt py_format user_input st
         = appliquer_analyse py_format analyse ?st"
    by (simp add: traiter_message_def Let_def assms(2))
  from assms(1) obtain kvs rs qs s b where a: "analyse = JObj kvs"
    and k: "map_of kvs (u ''prestations_recommandees'') = Some (JArr rs)"
      "map_of kvs (u ''questions_clarification'') = Some (JArr qs)"
      "map_of kvs (u ''analyse_situation'') = Some (JStr s)"
      "map_of kvs (u ''urgence_detectee'') = Some (JBool b)"
    by (rule analysis_resultE)
  note sh = appliquer_analyse_shape [OF a k, of py_format ?st]
  have g: "py_getitem analyse (u ''prestations_recommandees'') = Inr (JArr rs)"
    "py_getitem analyse (u ''urgence_detectee'') = Inr (JBool b)"
    by (simp_all add: a k)
  show ?thesis
    unfolding t g using sh by simp
qed

theorem traiter_message_recommendations_witness:
  "prestations_actuelles (fst (traiter_message
       (\<lambda>t. Some (JObj [(u ''prestations_recommandees'',
                            JArr [JObj [(u ''domaine_id'', JStr (u ''d'')),
                                        (u ''prestation_id'', JStr (u ''p''))]]),
                         (u ''questions_clarification'', JArr []),
                         (u ''analyse_situation'', JStr (u ''bail'')),
                         (u ''urgence_detectee'', JBool True)]))
       (\<lambda>q h. Inr []) (\<lambda>v. []) (u ''bail'')
       \<lparr>messages = [], prestations_actuelles = None, urgence_detectee = None\<rparr>))
     = Some (JArr [JObj [(u ''domaine_id'', JStr (u ''d'')),
                         (u ''prestation_id'', JStr (u ''p''))]])
   \<and> urgence_detectee (fst (traiter_message
       (\<lambda>t. Some (JObj [(u ''prestations_recommandees'',
                            JArr [JObj [(u ''domaine_id'', JStr (u ''d'')),
                                        (u ''prestation_id'', JStr (u ''p''))]]),
                         (u ''questions_clarification'', JArr []),
                         (u ''analyse_situation'', JStr (u ''bail'')),
                         (u ''urgence_detectee'', JBool True)]))
       (\<lambda>q h. Inr []) (\<lambda>v. []) (u ''bail'')
       \<lparr>messages = [], prestations_actuelles = None, urgence_detectee = None\<rparr>))
     = Some (JBool True)"
proof -
  let ?a = "JObj [(u ''prestations_recommandees'',
                            JArr [JObj [(u ''domaine_id'', JStr (u ''d'')),
                                        (u ''prestation_id'', JStr (u ''p''))]]),
                         (u ''questions_clarification'', JArr []),
                         (u ''analyse_situation'', JStr (u ''bail'')),
                         (u ''urgence_detectee'', JBool True)]"
  let ?st = "\<lparr>messages = [], prestations_actuelles = None, urgence_detectee = None\<rparr>"
  have h1: "analysis_result ?a"
    by (simp add: analysis_result_def u_def)
  have h2: "?a = fst (analyser_avec_gpt (\<lambda>t. Some ?a) (\<lambda>q h. Inr []) (u ''bail'')
                        (messages ?st @ [\<lparr>m_role = User, m_content = u ''bail''\<rparr>]))"
    by (simp add: analyser_avec_gpt_def)
  have g: "py_getitem ?a (u ''prestations_recommandees'')
             = Inr (JArr [JObj [(u ''domaine_id'', JStr (u ''d'')),
                                (u ''prestation_id'', JStr (u ''p''))]])"
     "py_getitem ?a (u ''urgence_detectee'') = Inr (JBool True)"
    by (simp_all add: u_def)
  from traiter_message_recommendations [OF h1 h2, of "\<lambda>v. []"] g
  show ?thesis by blast
qed

section \<open>The analysis\<close>

text \<open>
  C4 (as amended). When the request raises, or when the cleaned reply is not accepted
  by the parser, the analysis is the safe default (no recommendation, the one question
  asking to rephrase, the summary of an analysis error, no urgency, client type
  undetermined) and the error is reported, without an exception for the caller. A reply
  the parser accepts is returned as it was parsed, whatever keys it has.
\<close>

theorem analyser_avec_gpt_failures:
  "(gpt query (drop (length historique - 5) historique) = Inl e \<longrightarrow>
      analyser_avec_gpt json_loads gpt query historique = (resultat_defaut, True))
   \<and> (gpt query (drop (length historique - 5) historique) = Inr t
        \<and> json_loads (nettoyer t) = None \<longrightarrow>
      analyser_avec_gpt json_loads gpt query historique = (resultat_defaut, True))
   \<and> (gpt query (drop (length historique - 5) historique) = Inr t
        \<and> json_loads (nettoyer t) = Some v \<longrightarrow>
      analyser_avec_gpt json_loads gpt query historique = (v, False))
   \<and> py_getitem resultat_defaut (u ''prestations_recommandees'') = Inr (JArr [])
   \<and> py_getitem resultat_defaut (u ''questions_clarification'')
       = Inr (JArr [JStr (u ''Pouvez-vous reformuler votre demande ?'')])
   \<and> py_getitem resultat_defaut (u ''analyse_situation'')
       = Inr (JStr (u ''Erreur d'' @ [39] @ u ''analyse''))
   \<and> py_getitem resultat_defaut (u ''urgence_detectee'') = Inr (JBool False)
   \<and> py_getitem resultat_defaut (u ''type_client'') = Inr (JStr (u ''indetermine''))"
  by (simp add: analyser_avec_gpt_def resultat_defaut_def u_def)

theorem analyser_avec_gpt_failures_witness:
  "analyser_avec_gpt loads_exemple (\<lambda>q h. Inl ApiError) (u ''bail'') [] = (resultat_defaut, True)
   \<and> analyser_avec_gpt loads_exemple (\<lambda>q h. Inr (u ''bonjour'')) (u ''bail'') []
       = (resultat_defaut, True)
   \<and> analyser_avec_gpt loads_exemple (\<lambda>q h. Inr document_exemple) (u ''bail'') []
       = (valeur_exemple, False)"
proof -
  have n: "loads_exemple (nettoyer (u ''bonjour'')) = None"
    by (simp add: loads_exemple_def nettoyer_def py_strip_def json_trim_def json_ws_def
        isspace_def document_exemple_def u_def)
  have d: "loads_exemple (nettoyer document_exemple) = Some valeur_exemple"
    by (simp add: loads_exemple_def nettoyer_def py_strip_def json_trim_def json_ws_def
        isspace_def document_exemple_def u_def)
  from n d
    analyser_avec_gpt_failures [of "\<lambda>q h. Inl ApiError" "u ''bail''" "[]" ApiError loads_exemple]
    analyser_avec_gpt_failures [of "\<lambda>q h. Inr (u ''bonjour'')" "u ''bail''" "[]" _ loads_exemple
      "u ''bonjour''"]
    analyser_avec_gpt_failures [of "\<lambda>q h. Inr document_exemple" "u ''bail''" "[]" _ loads_exemple
      document_exemple valeur_exemple]
  show ?thesis by simp
qed

theorem analyser_avec_gpt_missing_keys_counterexample:
  "analyser_avec_gpt loads_exemple (\<lambda>q h. Inr (u ''{}'')) (u ''bail'') [] = (JObj [], False)
   \<and> JObj [] \<noteq> resultat_defaut
   \<and> py_getitem (JObj []) (u ''prestations_recommandees'') = Inl KeyError
   \<and> snd (traiter_message loads_exemple (\<lambda>q h. Inr (u ''{}'')) (\<lambda>v. []) (u ''bail'')
            \<lparr>messages = [], prestations_actuelles = None, urgence_detectee = None\<rparr>)
       = Some KeyError"
  by (simp add: analyser_avec_gpt_def traiter_message_def appliquer_analyse_def loads_exemple_def
      nettoyer_def py_strip_def json_trim_def json_ws_def isspace_def resultat_defaut_def u_def)

section \<open>The display\<close>






section \<open>The clarification questions\<close>

text \<open>
  C8 (as amended). For an enumeration of the set of labels, the text depends on the matches
  through their sequence of domain labels only, and never on the query. Without matches it
  is the fixed message. With matches, the branch is keyed on whether the number of
  distinct domain labels exceeds 2: if it does, the second line lists three distinct
  domain labels of the matches, the first three of the enumeration, joined by a comma and
  a space; otherwise the text is the fixed four lines that ask to refine.
\<close>

theorem generer_questions_clarification_branches:
  assumes "enumere ordre"
  shows "generer_questions_clarification ordre resultats query
           = generer_questions_clarification ordre resultats query'
       \<and> (map r_domaine resultats = map r_domaine resultats' \<longrightarrow>
            generer_questions_clarification ordre resultats query
              = generer_questions_clarification ordre resultats' query')
       \<and> (resultats = [] \<longrightarrow>
            generer_questions_clarification ordre resultats query = texte_aucun_resultat)
       \<and> (resultats \<noteq> [] \<and> card (set (map r_domaine resultats)) \<le> 2 \<longrightarrow>
            generer_questions_clarification ordre resultats query = py_join [10] lignes_affiner)
       \<and> (resultats \<noteq> [] \<and> 2 < card (set (map r_domaine resultats)) \<longrightarrow>
            (\<exists>a b c. take 3 (ordre (map r_domaine resultats)) = [a, b, c]
               \<and> distinct [a, b, c]
               \<and> set [a, b, c] \<subseteq> set (map r_domaine resultats)
               \<and> generer_questions_clarification ordre resultats query
                    = py_join [10] (lignes_orienter [a, b, c])
               \<and> lignes_orienter [a, b, c] ! 1
                    = u ''- Votre situation concerne-t-elle plut'' @ [244] @ u ''t : ''
                        @ a @ u '', '' @ b @ u '', '' @ c @ u '' ?''))"
proof -
  let ?L = "map r_domaine resultats"
  have q: "generer_questions_clarification ordre resultats query
           = generer_questions_clarification ordre resultats query'"
    by (simp add: generer_questions_clarification_def)
  have l: "generer_questions_clarification ordre resultats query
              = generer_questions_clarification ordre resultats' query'"
    if "map r_domaine resultats = map r_domaine resultats'"
  proof -
    from that have "resultats = [] \<longleftrightarrow> resultats' = []"
      by (metis map_is_Nil_conv)
    with that show ?thesis by (simp add: generer_questions_clarification_def)
  qed
  have e: "generer_questions_clarification ordre resultats query = texte_aucun_resultat"
    if "resultats = []"
    using that by (simp add: generer_questions_clarification_def)
  have len: "length (ordre ?L) = card (set ?L)"
    using assms by (rule enumere_length)
  have f: "generer_questions_clarification ordre resultats query = py_join [10] lignes_affiner"
    if "resultats \<noteq> []" "card (set ?L) \<le> 2"
    using that len by (simp add: generer_questions_clarification_def Let_def)
  have g: "\<exists>a b c. take 3 (ordre ?L) = [a, b, c]
               \<and> distinct [a, b, c]
               \<and> set [a, b, c] \<subseteq> set ?L
               \<and> generer_questions_clarification ordre resultats query
                    = py_join [10] (lignes_orienter [a, b, c])
               \<and> lignes_orienter [a, b, c] ! 1
                    = u ''- Votre situation concerne-t-elle plut'' @ [244] @ u ''t : ''
                        @ a @ u '', '' @ b @ u '', '' @ c @ u '' ?''"
    if "resultats \<noteq> []" "2 < card (set ?L)"
  proof -
    from that len have long: "2 < length (ordre ?L)" by simp
    then obtain a b c where t: "take 3 (ordre ?L) = [a, b, c]" by (rule take_3_of_long)
    from assms have d: "distinct (ordre ?L)" and s: "set (ordre ?L) = set ?L"
      by (simp_all add: enumere_def)
    from d have "distinct (take 3 (ordre ?L))" by (rule distinct_take)
    then have d3: "distinct [a, b, c]" by (simp only: t)
    have "set (take 3 (ordre ?L)) \<subseteq> set (ordre ?L)" by (rule set_take_subset)
    then have s3: "set [a, b, c] \<subseteq> set ?L" by (simp only: t s)
    have r: "generer_questions_clarification ordre resultats query
                    = py_join [10] (lignes_orienter [a, b, c])"
      using that(1) long by (simp add: generer_questions_clarification_def Let_def t)
    have ln: "lignes_orienter [a, b, c] ! 1
                    = u ''- Votre situation concerne-t-elle plut'' @ [244] @ u ''t : ''
                        @ a @ u '', '' @ b @ u '', '' @ c @ u '' ?''"
      by (simp add: lignes_orienter_def)
    from t d3 s3 r ln show ?thesis by blast
  qed
  from q l e f g show ?thesis by blast
qed

theorem generer_questions_clarification_branches_witness:
  "enumere remdups
   \<and> generer_questions_clarification remdups resultats_exemple (u ''bail'')
       = py_join [10] (lignes_orienter [u ''Droit social'', u ''Droit fiscal'', u ''Droit des affaires''])
   \<and> generer_questions_clarification remdups (take 2 resultats_exemple) (u ''bail'')
       = py_join [10] lignes_affiner
   \<and> generer_questions_clarification remdups [] (u ''bail'') = texte_aucun_resultat"
proof -
  have c3: "resultats_exemple \<noteq> [] \<and> 2 < card (set (map r_domaine resultats_exemple))"
    unfolding card_set by (simp add: resultats_exemple_def resultat_exemple_def u_def)
  have t3: "take 3 (remdups (map r_domaine resultats_exemple))
              = [u ''Droit social'', u ''Droit fiscal'', u ''Droit des affaires'']"
    by (simp add: resultats_exemple_def resultat_exemple_def u_def)
  have c2: "take 2 resultats_exemple \<noteq> []
              \<and> card (set (map r_domaine (take 2 resultats_exemple))) \<le> 2"
    unfolding card_set by (simp add: resultats_exemple_def resultat_exemple_def u_def)
  note th = generer_questions_clarification_branches [OF enumere_remdups]
  from th [of resultats_exemple "u ''bail''"] c3 t3
  have a: "generer_questions_clarification remdups resultats_exemple (u ''bail'')
       = py_join [10] (lignes_orienter [u ''Droit social'', u ''Droit fiscal'', u ''Droit des affaires''])"
    by auto
  from th [of "take 2 resultats_exemple" "u ''bail''"] c2
  have b: "generer_questions_clarification remdups (take 2 resultats_exemple) (u ''bail'')
       = py_join [10] lignes_affiner"
    by blast
  from th [of "[]" "u ''bail''"]
  have c: "generer_questions_clarification remdups [] (u ''bail'') = texte_aucun_resultat"
    by blast
  from enumere_remdups a b c show ?thesis by blast
qed

theorem generer_questions_clarification_counterexample:
  "enumere remdups \<and> enumere (\<lambda>xs. rev (remdups xs))
   \<and> generer_questions_clarification remdups resultats_exemple (u ''bail'')
       \<noteq> generer_questions_clarification (\<lambda>xs. rev (remdups xs)) resultats_exemple (u ''bail'')
   \<and> \<not> 2 < card (set (map r_domaine ([] :: resultat list)))
   \<and> \<not> 2 < card (set (map r_domaine (take 2 resultats_exemple)))
   \<and> generer_questions_clarification remdups [] (u ''bail'')
       \<noteq> generer_questions_clarification remdups (take 2 resultats_exemple) (u ''bail'')"
proof -
  have a: "generer_questions_clarification remdups resultats_exemple (u ''bail'')
       \<noteq> generer_questions_clarification (\<lambda>xs. rev (remdups xs)) resultats_exemple (u ''bail'')"
    by (simp add: generer_questions_clarification_def resultats_exemple_def
        resultat_exemple_def lignes_orienter_def u_def)
  have b: "\<not> 2 < card (set (map r_domaine ([] :: resultat list)))" by simp
  have c: "\<not> 2 < card (set (map r_domaine (take 2 resultats_exemple)))"
    unfolding card_set by (simp add: resultats_exemple_def resultat_exemple_def u_def)
  have d: "generer_questions_clarification remdups [] (u ''bail'')
       \<noteq> generer_questions_clarification remdups (take 2 resultats_exemple) (u ''bail'')"
    by (simp add: generer_questions_clarification_def resultats_exemple_def
        resultat_exemple_def lignes_affiner_def texte_aucun_resultat_def u_def)
  from enumere_remdups enumere_rev_remdups a b c d show ?thesis by blast
qed

section \<open>Replies in a fence\<close>

text \<open>
  C5. A reply in a fence gives the analysis of the reply without the fence. Let \<open>t\<close> be a
  text that the parser accepts, with value \<open>v\<close>, where the parser ignores JSON whitespace
  around a document and accepts no text that begins with a backquote or the letter j.
  Whether the model answers \<open>t\<close> itself, or \<open>t\<close> between a leading fence tagged \<open>json\<close> and a
  trailing fence, or between two plain fences, with or without whitespace inside and
  outside the fences, the analysis is \<open>v\<close> and no error is shown.
\<close>

theorem analyser_avec_gpt_fence_round_trip:
  assumes "loads_spec json_loads" and "json_loads t = Some v"
    and "list_all json_ws a" and "list_all json_ws b"
    and "list_all isspace pre" and "list_all isspace post"
    and "gpt_json query (drop (length historique - 5) historique)
           = Inr (pre @ u ''```json'' @ a @ t @ b @ u ''```'' @ post)"
    and "gpt_fence query (drop (length historique - 5) historique)
           = Inr (pre @ u ''```'' @ a @ t @ b @ u ''```'' @ post)"
    and "gpt_nu query (drop (length historique - 5) historique) = Inr t"
  shows "analyser_avec_gpt json_loads gpt_json query historique
           = analyser_avec_gpt json_loads gpt_nu query historique
       \<and> analyser_avec_gpt json_loads gpt_fence query historique
           = analyser_avec_gpt json_loads gpt_nu query historique
       \<and> analyser_avec_gpt json_loads gpt_nu query historique = (v, False)"
proof -
  let ?body = "a @ t @ b"
  have body: "json_loads ?body = Some v"
    using loads_spec_ws [OF assms(1,3,4), of t] assms(2) by simp
  from loads_spec_ends(1,3) [OF assms(1,2)] have t: "t \<noteq> []" "hd t \<noteq> 106" .
  then have ne: "?body \<noteq> []" by simp
  have hd: "hd ?body \<noteq> 106"
  proof (cases a)
    case Nil
    with t show ?thesis by simp
  next
    case (Cons c a')
    with assms(3) have "json_ws c" by simp
    then have "c \<noteq> 106" by (auto simp: json_ws_def)
    with Cons show ?thesis by simp
  qed
  have "nettoyer (pre @ u ''```json'' @ ?body @ u ''```'' @ post) = ?body"
    using assms(5,6) by (rule nettoyer_fence_json)
  then have nj: "nettoyer (pre @ u ''```json'' @ a @ t @ b @ u ''```'' @ post) = ?body"
    by simp
  have "nettoyer (pre @ u ''```'' @ ?body @ u ''```'' @ post) = ?body"
    using assms(5,6) ne hd by (rule nettoyer_fence_plain)
  then have nf: "nettoyer (pre @ u ''```'' @ a @ t @ b @ u ''```'' @ post) = ?body"
    by simp
  have nu: "json_loads (nettoyer t) = Some v"
    using assms(1,2) by (rule loads_nettoyer_plain)
  have r1: "analyser_avec_gpt json_loads gpt_json query historique = (v, False)"
    by (simp add: analyser_avec_gpt_def assms(7) nj body)
  have r2: "analyser_avec_gpt json_loads gpt_fence query historique = (v, False)"
    by (simp add: analyser_avec_gpt_def assms(8) nf body)
  have r3: "analyser_avec_gpt json_loads gpt_nu query historique = (v, False)"
    by (simp add: analyser_avec_gpt_def assms(9) nu)
  from r1 r2 r3 show ?thesis by simp
qed

theorem analyser_avec_gpt_fence_round_trip_witness:
  "analyser_avec_gpt loads_exemple
     (\<lambda>q h. Inr ([32] @ u ''```json'' @ [10] @ document_exemple @ [10] @ u ''```'' @ [10]))
     (u ''bail'') []
     = (valeur_exemple, False)
   \<and> analyser_avec_gpt loads_exemple
     (\<lambda>q h. Inr ([32] @ u ''```'' @ [10] @ document_exemple @ [10] @ u ''```'' @ [10]))
     (u ''bail'') []
     = (valeur_exemple, False)
   \<and> analyser_avec_gpt loads_exemple (\<lambda>q h. Inr document_exemple) (u ''bail'') []
     = (valeur_exemple, False)"
proof -
  have l: "loads_exemple document_exemple = Some valeur_exemple"
    by (simp add: loads_exemple_def json_trim_def json_ws_def document_exemple_def u_def)
  have w: "list_all json_ws [10]" by (simp add: json_ws_def)
  have s: "list_all isspace [32]" "list_all isspace [10]" by (simp_all add: isspace_def)
  from analyser_avec_gpt_fence_round_trip [OF loads_spec_loads_exemple l w w s,
      of "\<lambda>q h. Inr ([32] @ u ''```json'' @ [10] @ document_exemple @ [10] @ u ''```'' @ [10])"
         "u ''bail''" "[]"
         "\<lambda>q h. Inr ([32] @ u ''```'' @ [10] @ document_exemple @ [10] @ u ''```'' @ [10])"
         "\<lambda>q h. Inr document_exemple"]
  show ?thesis by simp
qed

end
